theory Spec2Isabelle
  imports Complex_Main "HOL-Library.Multiset"
begin

section \<open>JavaScript values\<close>

text \<open>
  The item array handed to \<open>useSortable\<close> holds arbitrary JavaScript values. Reading
  index 0 of an empty array yields \<open>undefined\<close>, which \<open>splice\<close> then inserts like any
  other value, so \<open>undefined\<close> is a possible array element.
\<close>

datatype 'a jsval = Undefined | Val 'a

text \<open>
  Numbers. JavaScript numbers are IEEE doubles; their type is a parameter \<open>'v\<close> of the
  model, of which only the operations the code uses are required: \<open>+\<close>, \<open>-\<close>, \<open>/\<close>, the
  number 1 and the comparison \<open><\<close>. No law of arithmetic is assumed of them (addition need
  not be associative, nothing relates \<open>+\<close> to \<open><\<close>), so whatever is proved for every \<open>'v\<close>
  holds of double arithmetic with its rounding as well as of exact arithmetic. The literal
  2 of the source is written \<open>1 + 1\<close>, which double arithmetic computes exactly. Equality
  on \<open>'v\<close> is the sameness of two numbers that \<open>Object.is\<close> tests when React compares the
  dependencies of an effect.

  A number that the code computes from a possibly missing field can also be the \<open>NaN\<close>
  that arithmetic on \<open>undefined\<close> gives (\<open>undefined + 1\<close>, \<open>1 - undefined\<close>); every
  comparison with it is false.
\<close>

datatype 'v jsnum = NaN | Num 'v

fun num_gt :: "'v::ord jsnum \<Rightarrow> 'v \<Rightarrow> bool" where
  "num_gt NaN r = False"
| "num_gt (Num a) r = (a > r)"

fun num_lt :: "'v::ord jsnum \<Rightarrow> 'v \<Rightarrow> bool" where
  "num_lt NaN r = False"
| "num_lt (Num a) r = (a < r)"

text \<open>\<open>a - b\<close> where \<open>b\<close> may be \<open>undefined\<close> (\<open>clientY - state.initialY\<close>).\<close>

fun num_sub :: "'v::minus \<Rightarrow> 'v option \<Rightarrow> 'v jsnum" where
  "num_sub a None = NaN"
| "num_sub a (Some b) = Num (a - b)"

text \<open>
  An index held in the state is \<open>undefined\<close> until it is first assigned.
  \<open>ToIntegerOrInfinity\<close> on an index argument: \<open>undefined\<close> converts to 0.
\<close>

fun toInteger :: "int option \<Rightarrow> int" where
  "toInteger None = 0"
| "toInteger (Some i) = i"

text \<open>\<open>a < b\<close> where \<open>a\<close> may be \<open>undefined\<close>: \<open>undefined\<close> converts to \<open>NaN\<close>.\<close>

fun idx_lt :: "int option \<Rightarrow> int \<Rightarrow> bool" where
  "idx_lt None j = False"
| "idx_lt (Some i) j = (i < j)"

fun idx_gt :: "int option \<Rightarrow> int \<Rightarrow> bool" where
  "idx_gt None j = False"
| "idx_gt (Some i) j = (i > j)"

section \<open>Arrays\<close>

text \<open>
  \<open>Array.prototype.splice(start, deleteCount, ...items)\<close>: a negative \<open>start\<close> counts from
  the end, \<open>start\<close> and \<open>deleteCount\<close> are clamped to the array. The result is the pair
  of the removed elements (what \<open>splice\<close> returns) and the array after the call.
\<close>

definition splice :: "int \<Rightarrow> int \<Rightarrow> 'a list \<Rightarrow> 'a list \<Rightarrow> 'a list \<times> 'a list" where
  "splice start deleteCount ins xs =
     (let len = int (length xs);
          actualStart = nat (if start < 0 then max (len + start) 0 else min start len);
          actualDeleteCount = nat (min (max deleteCount 0) (len - int actualStart))
      in (take actualDeleteCount (drop actualStart xs),
          take actualStart xs @ ins @ drop (actualStart + actualDeleteCount) xs))"

text \<open>\<open>arr[0]\<close>: the first element, \<open>undefined\<close> when the array is empty.\<close>

fun first_elem :: "'a jsval list \<Rightarrow> 'a jsval" where
  "first_elem [] = Undefined"
| "first_elem (v # vs) = v"

text \<open>
  \<open>Array.prototype.findIndex\<close>: the first index whose element satisfies the predicate,
  -1 when none does.
\<close>

fun findIndex_from :: "nat \<Rightarrow> ('a \<Rightarrow> bool) \<Rightarrow> 'a list \<Rightarrow> int" where
  "findIndex_from i P [] = - 1"
| "findIndex_from i P (v # vs) = (if P v then int i else findIndex_from (Suc i) P vs)"

definition findIndex :: "('a \<Rightarrow> bool) \<Rightarrow> 'a list \<Rightarrow> int" where
  "findIndex P vs = findIndex_from 0 P vs"

text \<open>\<open>Array.prototype.forEach\<close> with a callback \<open>(element, index)\<close> that updates an accumulator.\<close>

definition forEach :: "('a \<Rightarrow> nat \<Rightarrow> 's \<Rightarrow> 's) \<Rightarrow> 'a list \<Rightarrow> 's \<Rightarrow> 's" where
  "forEach f vs acc = fold (\<lambda>(i, v). f v i) (enumerate 0 vs) acc"

section \<open>The item list: \<open>useSortable\<close>\<close>

text \<open>What \<open>Sortable\<close> exposes to \<open>useSortable\<close> through the context.\<close>

record ctx =
  ctx_isDragging :: "bool option"
  oldIndex :: "int option"
  newIndex :: "int option"

text \<open>
  The recipe given to \<open>produce\<close>:
  \<open>draft.splice(newIndex, 0, draft.splice(oldIndex, 1)[0])\<close>. The inner call runs first
  and mutates the draft; the outer call inserts into the mutated draft.
\<close>

definition move_item :: "int option \<Rightarrow> int option \<Rightarrow> 'a jsval list \<Rightarrow> 'a jsval list" where
  "move_item old new draft =
     (let (removed, draft1) = splice (toInteger old) 1 [] draft;
          (none, draft2) = splice (toInteger new) 0 [first_elem removed] draft1
      in draft2)"

text \<open>
  The body of the effect of \<open>useSortable\<close> (it runs when \<open>isDragging\<close> has changed):
  the items after it has run.
\<close>

definition useSortable_effect :: "ctx \<Rightarrow> 'a jsval list \<Rightarrow> 'a jsval list" where
  "useSortable_effect c its =
     (if ctx_isDragging c = Some False \<and> oldIndex c \<noteq> newIndex c
      then move_item (oldIndex c) (newIndex c) its
      else its)"

text \<open>
  The effect as it runs when a drag has just ended (\<open>isDragging\<close> has become \<open>false\<close>)
  with the origin index \<open>old\<close> and the live target index \<open>new\<close>.
\<close>

abbreviation commit :: "int option \<Rightarrow> int option \<Rightarrow> 'a jsval list \<Rightarrow> 'a jsval list" where
  "commit old new its \<equiv>
     useSortable_effect \<lparr>ctx_isDragging = Some False, oldIndex = old, newIndex = new\<rparr> its"

section \<open>The state of \<open>Sortable\<close> and its reducer\<close>

text \<open>
  A bounding rectangle as \<open>getBoundingClientRect\<close> returns it. The geometry of the page is
  not part of the program: every function that reads it takes the current geometry
  \<open>g\<close>, a function from DOM nodes to rectangles, as an argument.
\<close>

record 'v domRect =
  rect_x :: 'v
  rect_y :: 'v
  rect_width :: 'v
  rect_height :: 'v

text \<open>\<open>draggedElement\<close>: the pressed node and its rectangle at the time of the press.\<close>

record ('n, 'v) dragged =
  node :: 'n
  rect :: "'v domRect"

text \<open>
  \<open>cloneNode\<close> returns a new DOM node at every call. A clone is named by the node it was
  cloned from and a serial number; whoever calls the reducer supplies a serial number
  that no clone has had before.
\<close>

record 'n clone =
  source :: 'n
  serial :: nat

text \<open>
  The reducer state. \<open>initialState\<close> is \<open>{ nodes: [] }\<close>: every other field is
  \<open>undefined\<close> (\<open>None\<close>) until an action assigns it.
\<close>

record ('n, 'v) state =
  nodes :: "'n list"
  isDragging :: "bool option"
  initialY :: "'v option"
  currentY :: "'v jsnum option"
  draggedElement :: "('n, 'v) dragged option"
  draggedElementIndex :: "int option"
  draggedElementNewIndex :: "int option"
  duplicateNode :: "'n clone option"

definition initialState :: "('n, 'v) state" where
  "initialState =
     \<lparr>nodes = [], isDragging = None, initialY = None, currentY = None,
      draggedElement = None, draggedElementIndex = None, draggedElementNewIndex = None,
      duplicateNode = None\<rparr>"

datatype ('n, 'v) action =
    ADD_NODE 'n
  | DRAG_START 'v 'n
  | DRAG_END
  | SET_CURRENT_Y "'v jsnum"
  | SET_NEW_INDEX int
  | OTHER

text \<open>
  The reducer, under the geometry \<open>g\<close> of the page and with the serial number \<open>k\<close> for
  the clone that \<open>DRAG_START\<close> makes.
\<close>

fun reducer ::
  "('n \<Rightarrow> 'v domRect) \<Rightarrow> nat \<Rightarrow> ('n, 'v) state \<Rightarrow> ('n, 'v) action \<Rightarrow> ('n, 'v) state" where
  "reducer g k s (ADD_NODE n) = s\<lparr>nodes := nodes s @ [n]\<rparr>"
| "reducer g k s (DRAG_START y n) =
     s\<lparr>isDragging := Some True,
       initialY := Some y,
       draggedElement := Some \<lparr>node = n, rect = g n\<rparr>,
       draggedElementIndex := Some (findIndex (\<lambda>m. m = n) (nodes s)),
       duplicateNode := Some \<lparr>source = n, serial = k\<rparr>\<rparr>"
| "reducer g k s DRAG_END = s\<lparr>isDragging := Some False\<rparr>"
| "reducer g k s (SET_CURRENT_Y v) = s\<lparr>currentY := Some v\<rparr>"
| "reducer g k s (SET_NEW_INDEX i) = s\<lparr>draggedElementNewIndex := Some i\<rparr>"
| "reducer g k s OTHER = s"

text \<open>The actions whose reduction makes a clone.\<close>

fun makes_clone :: "('n, 'v) action \<Rightarrow> bool" where
  "makes_clone (DRAG_START y n) = True"
| "makes_clone (ADD_NODE n) = False"
| "makes_clone DRAG_END = False"
| "makes_clone (SET_CURRENT_Y v) = False"
| "makes_clone (SET_NEW_INDEX i) = False"
| "makes_clone OTHER = False"

text \<open>The context value built from the state (\<open>addNode\<close> apart).\<close>

definition ctx_of :: "('n, 'v) state \<Rightarrow> ctx" where
  "ctx_of s =
     \<lparr>ctx_isDragging = isDragging s, oldIndex = draggedElementIndex s,
      newIndex = draggedElementNewIndex s\<rparr>"

section \<open>Event handlers\<close>

text \<open>
  A mouse event carries its \<open>clientY\<close>; a touch event carries its touches, of which the
  handlers read the first (a touch start or touch move has at least one).
\<close>

datatype 'v pointer = Mouse 'v | Touch 'v "'v list"

fun clientY :: "'v pointer \<Rightarrow> 'v" where
  "clientY (Mouse v) = v"
| "clientY (Touch v vs) = v"

text \<open>
  Each handler reads the state \<open>s\<close> of the render that registered it and returns the
  actions it dispatches. \<open>drag\<close> also says whether it called \<open>preventDefault\<close>.
\<close>

definition addNode :: "'n \<Rightarrow> ('n, 'v) action list" where
  "addNode n = [ADD_NODE n]"

definition dragStart :: "('n, 'v) state \<Rightarrow> 'v pointer \<Rightarrow> 'n \<Rightarrow> ('n, 'v) action list" where
  "dragStart s e target =
     (if list_ex (\<lambda>n. n = target) (nodes s) then [DRAG_START (clientY e) target] else [])"

definition dragEnd :: "('n, 'v) action list" where
  "dragEnd = [DRAG_END]"

definition drag ::
  "('n, 'v::minus) state \<Rightarrow> 'v pointer \<Rightarrow> bool \<times> ('n, 'v) action list" where
  "drag s e =
     (if isDragging s = Some True
      then (True, [SET_CURRENT_Y (num_sub (clientY e) (initialY s))])
      else (False, []))"

section \<open>Effects on the page\<close>

text \<open>
  What the effects write to the DOM, in the order they write it. A \<open>transform\<close> is the
  value given to \<open>style.transform\<close> of a list node: \<open>translate3d(0, -h px, 0)\<close>,
  \<open>translate3d(0, h px, 0)\<close>, \<open>translate3d(0, 0, 0)\<close> or the empty string.
\<close>

datatype 'v transform = Shift_up 'v | Shift_down 'v | Neutral | Cleared

datatype ('n, 'v) dom_op =
    Place_proxy "'n clone" "'v domRect"
  | Remove_proxy "'n clone"
  | Set_visibility 'n bool
  | Set_transition 'n bool
  | Set_transform 'n "'v transform"
  | Move_proxy "'n clone" "'v jsnum option"
  | Prevent_default

datatype error = TypeError | NotFoundError

text \<open>
  The children of \<open>document.body\<close> that are clones. \<open>appendChild\<close> puts a node last (a
  node that is already a child is moved); \<open>removeChild\<close> throws a \<open>NotFoundError\<close> for a
  node that is not a child.
\<close>

definition appendChild :: "'c \<Rightarrow> 'c list \<Rightarrow> 'c list" where
  "appendChild c children = removeAll c children @ [c]"

definition removeChild :: "'c \<Rightarrow> 'c list \<Rightarrow> error + 'c list" where
  "removeChild c children =
     (if c \<in> set children then Inr (removeAll c children) else Inl NotFoundError)"

text \<open>
  The effect that depends on \<open>state.isDragging\<close>, with the clones that are children of
  the body before and after it. When a drag starts the duplicate is placed over the
  pressed node and appended to the body, the pressed node is hidden and every node gets
  a transition (the test \<open>i !== state.draggedElement.draggedElement\<close> compares with a
  missing property and is always true). When a drag has ended the duplicate is removed
  from the body, the node shown and every node's transition and transform are cleared.
  Reading a property of a missing \<open>draggedElement\<close> or \<open>duplicateNode\<close> throws a
  \<open>TypeError\<close>, and so does \<open>removeChild(undefined)\<close>.
\<close>

definition dragging_effect ::
  "('n \<Rightarrow> 'v domRect) \<Rightarrow> 'n clone list \<Rightarrow> ('n, 'v) state
     \<Rightarrow> error + ('n, 'v) dom_op list \<times> 'n clone list" where
  "dragging_effect g children s =
     (if isDragging s = Some True then
        (case draggedElement s of
           None \<Rightarrow> Inl TypeError
         | Some d \<Rightarrow>
            (case duplicateNode s of
               None \<Rightarrow> Inl TypeError
             | Some dup \<Rightarrow>
                Inr (forEach (\<lambda>n i ops. ops @ [Set_transition n True]) (nodes s)
                       [Place_proxy dup (g (node d)), Set_visibility (node d) False],
                     appendChild dup children)))
      else
        (case draggedElement s of
           None \<Rightarrow> Inr ([], children)
         | Some d \<Rightarrow>
            (case duplicateNode s of
               None \<Rightarrow> Inl TypeError
             | Some dup \<Rightarrow>
                (case removeChild dup children of
                   Inl err \<Rightarrow> Inl err
                 | Inr children' \<Rightarrow>
                    Inr (forEach
                           (\<lambda>n i ops. ops @ [Set_transition n False, Set_transform n Cleared])
                           (nodes s) [Remove_proxy dup, Set_visibility (node d) True],
                         children')))))"

text \<open>
  The effect that depends on \<open>state.currentY\<close>. \<open>offset\<close> is
  \<open>state.currentY + draggedRect.y + draggedRect.height / 2\<close>.
\<close>

fun midpoint :: "'v::{plus,inverse,one} jsnum option \<Rightarrow> 'v domRect \<Rightarrow> 'v jsnum" where
  "midpoint (Some (Num c)) r = Num (c + rect_y r + rect_height r / (1 + 1))"
| "midpoint (Some NaN) r = NaN"
| "midpoint None r = NaN"

text \<open>
  The callback of \<open>state.nodes.forEach\<close>: the transform written to the node at \<open>index\<close>
  (none for the dragged index), then the \<open>SET_NEW_INDEX\<close> it dispatches when the
  node's rectangle contains the offset. The accumulator is the pair of the DOM writes
  and the dispatched actions so far.
\<close>

definition place_node ::
  "('n \<Rightarrow> 'v::{plus,ord} domRect) \<Rightarrow> 'v domRect \<Rightarrow> 'v jsnum \<Rightarrow> int option \<Rightarrow> 'n \<Rightarrow> nat
     \<Rightarrow> ('n, 'v) dom_op list \<times> ('n, 'v) action list
     \<Rightarrow> ('n, 'v) dom_op list \<times> ('n, 'v) action list" where
  "place_node g draggedRect offset draggedIndex n index acc =
     (let r = g n;
          ops = (if Some (int index) \<noteq> draggedIndex then
                   (if num_gt offset (rect_y r) \<and> idx_lt draggedIndex (int index)
                    then fst acc @ [Set_transform n (Shift_up (rect_height draggedRect))]
                    else if num_lt offset (rect_y r + rect_height r) \<and> idx_gt draggedIndex (int index)
                    then fst acc @ [Set_transform n (Shift_down (rect_height draggedRect))]
                    else fst acc @ [Set_transform n Neutral])
                 else fst acc);
          acts = (if num_gt offset (rect_y r) \<and> num_lt offset (rect_y r + rect_height r)
                  then snd acc @ [SET_NEW_INDEX (int index)]
                  else snd acc)
      in (ops, acts))"

definition position_effect ::
  "('n \<Rightarrow> 'v::{plus,inverse,one,ord} domRect) \<Rightarrow> ('n, 'v) state
     \<Rightarrow> error + ('n, 'v) dom_op list \<times> ('n, 'v) action list" where
  "position_effect g s =
     (case duplicateNode s of
        None \<Rightarrow> Inr ([], [])
      | Some dup \<Rightarrow>
         (case draggedElement s of
            None \<Rightarrow> Inl TypeError
          | Some d \<Rightarrow>
             Inr (forEach
                    (place_node g (rect d) (midpoint (currentY s) (rect d)) (draggedElementIndex s))
                    (nodes s) ([Move_proxy dup (currentY s)], []))))"

section \<open>Renders\<close>

text \<open>
  The component tree between two events: the reducer state, the state that the registered
  event handlers have captured, the items held by \<open>useSortable\<close>, the clones that are
  children of \<open>document.body\<close>, and the number of clones made so far (the serial number
  of the next one).
\<close>

record ('n, 'v, 'a) system =
  state :: "('n, 'v) state"
  listeners :: "('n, 'v) state"
  items :: "'a jsval list"
  body :: "'n clone list"
  clones :: nat

definition mounted :: "'a jsval list \<Rightarrow> ('n, 'v, 'a) system" where
  "mounted its =
     \<lparr>state = initialState, listeners = initialState, items = its, body = [], clones = 0\<rparr>"

text \<open>
  A render after the state went from \<open>prev\<close> to \<open>next\<close>. Each effect runs only when one
  of its dependencies has changed: the effect of \<open>useSortable\<close> (a child, so first) and
  \<open>dragging_effect\<close> on \<open>isDragging\<close>, the registration of the handlers on \<open>nodes\<close> or
  \<open>isDragging\<close>, \<open>position_effect\<close> on \<open>currentY\<close>. The actions that
  \<open>position_effect\<close> dispatches are reduced afterwards; they change no dependency, so
  no effect runs again. An exception thrown by an effect is not caught: the component
  tree is gone, and the result is the exception.
\<close>

definition render ::
  "('n \<Rightarrow> 'v::{plus,inverse,one,ord} domRect) \<Rightarrow> ('n, 'v) state \<Rightarrow> ('n, 'v) state
     \<Rightarrow> ('n, 'v, 'a) system \<Rightarrow> error + ('n, 'v, 'a) system \<times> ('n, 'v) dom_op list" where
  "render g prev next sys =
     (let its = (if isDragging next = isDragging prev then items sys
                 else useSortable_effect (ctx_of next) (items sys));
          ls = (if nodes next = nodes prev \<and> isDragging next = isDragging prev
                then listeners sys else next)
      in case (if isDragging next = isDragging prev then Inr ([], body sys)
               else dragging_effect g (body sys) next) of
           Inl err \<Rightarrow> Inl err
         | Inr (ops1, children) \<Rightarrow>
            (case (if currentY next = currentY prev then Inr ([], []) else position_effect g next) of
               Inl err \<Rightarrow> Inl err
             | Inr (ops2, acts) \<Rightarrow>
                Inr (\<lparr>state = foldl (reducer g (clones sys)) next acts, listeners = ls,
                      items = its, body = children, clones = clones sys\<rparr>,
                     ops1 @ ops2)))"

text \<open>
  The events the component can receive: the mount of a list element (its effect calls
  \<open>addNode\<close>), a mouse-down or touch-start on a target inside the container, a
  mouse-move or touch-move, a mouse-up or touch-end.
\<close>

datatype ('n, 'v) event =
    Mount 'n
  | PressStart "'v pointer" 'n
  | PressMove "'v pointer"
  | PressEnd

fun dispatched ::
  "('n, 'v::minus) state \<Rightarrow> ('n, 'v) event \<Rightarrow> ('n, 'v) dom_op list \<times> ('n, 'v) action list" where
  "dispatched s (Mount n) = ([], addNode n)"
| "dispatched s (PressStart e target) = ([], dragStart s e target)"
| "dispatched s (PressMove e) =
     (case drag s e of (prevented, acts) \<Rightarrow> (if prevented then [Prevent_default] else [], acts))"
| "dispatched s PressEnd = ([], dragEnd)"

text \<open>
  One event, under the geometry \<open>g\<close> of the page at that time: the handler, registered
  with the captured state, dispatches its actions; they are reduced (a handler dispatches
  at most one \<open>DRAG_START\<close>, whose clone gets the next serial number) and the component
  renders.
\<close>

definition step ::
  "('n \<Rightarrow> 'v::{plus,minus,inverse,one,ord} domRect) \<Rightarrow> ('n, 'v) event \<Rightarrow> ('n, 'v, 'a) system
     \<Rightarrow> error + ('n, 'v, 'a) system \<times> ('n, 'v) dom_op list" where
  "step g ev sys =
     (case dispatched (listeners sys) ev of
        (ops0, acts) \<Rightarrow>
          (case render g (state sys) (foldl (reducer g (clones sys)) (state sys) acts)
                  (sys\<lparr>clones := clones sys + length (filter makes_clone acts)\<rparr>) of
             Inl err \<Rightarrow> Inl err
           | Inr (sys1, ops1) \<Rightarrow> Inr (sys1, ops0 @ ops1)))"

fun run ::
  "(('n \<Rightarrow> 'v::{plus,minus,inverse,one,ord} domRect) \<times> ('n, 'v) event) list
     \<Rightarrow> ('n, 'v, 'a) system \<Rightarrow> error + ('n, 'v, 'a) system \<times> ('n, 'v) dom_op list" where
  "run [] sys = Inr (sys, [])"
| "run ((g, ev) # evs) sys =
     (case step g ev sys of
        Inl err \<Rightarrow> Inl err
      | Inr (sys1, ops1) \<Rightarrow>
         (case run evs sys1 of
            Inl err \<Rightarrow> Inl err
          | Inr (sys2, ops2) \<Rightarrow> Inr (sys2, ops1 @ ops2)))"

text \<open>Running events and keeping only the final state, or only the final items.\<close>

definition state_after ::
  "(('n \<Rightarrow> 'v::{plus,minus,inverse,one,ord} domRect) \<times> ('n, 'v) event) list
     \<Rightarrow> ('n, 'v, 'a) system \<Rightarrow> error + ('n, 'v) state" where
  "state_after evs sys =
     (case run evs sys of Inl err \<Rightarrow> Inl err | Inr (sys1, ops) \<Rightarrow> Inr (state sys1))"

definition items_after ::
  "(('n \<Rightarrow> 'v::{plus,minus,inverse,one,ord} domRect) \<times> ('n, 'v) event) list
     \<Rightarrow> ('n, 'v, 'a) system \<Rightarrow> error + 'a jsval list" where
  "items_after evs sys =
     (case run evs sys of Inl err \<Rightarrow> Inl err | Inr (sys1, ops) \<Rightarrow> Inr (items sys1))"


fun move_or_end :: "('n, 'v) event \<Rightarrow> bool" where
  "move_or_end (PressMove e) = True"
| "move_or_end PressEnd = True"
| "move_or_end (Mount n) = False"
| "move_or_end (PressStart e n) = False"

text \<open>
  What holds of the component after every event (\<open>run_coherent\<close> below). The handlers
  are registered again whenever \<open>nodes\<close> or \<open>isDragging\<close> changes, so the state they have
  captured agrees with the current state on these two fields; its other fields may be
  stale. \<open>draggedElement\<close> and \<open>duplicateNode\<close> are both set or both missing. Until
  the first press or release, \<open>isDragging\<close> and the session fields are unset; while
  \<open>isDragging\<close> is true the session fields are set, and the handlers have an
  \<open>initialY\<close>.
\<close>

definition coherent :: "('n, 'v, 'a) system \<Rightarrow> bool" where
  "coherent sys \<longleftrightarrow>
     nodes (listeners sys) = nodes (state sys)
     \<and> isDragging (listeners sys) = isDragging (state sys)
     \<and> (draggedElement (state sys) = None) = (duplicateNode (state sys) = None)
     \<and> (case isDragging (state sys) of
          None \<Rightarrow>
            draggedElement (state sys) = None
            \<and> draggedElementIndex (state sys) = None
            \<and> draggedElementNewIndex (state sys) = None
        | Some dragging \<Rightarrow>
            (if dragging
             then draggedElement (state sys) \<noteq> None
                  \<and> draggedElementIndex (state sys) \<noteq> None
                  \<and> initialY (state sys) \<noteq> None
                  \<and> initialY (listeners sys) \<noteq> None
             else True))"


section \<open>A sample page\<close>

text \<open>
  The list of the demo: five items, whose nodes (numbered from 0) are rows 40 pixels high
  stacked from the top of the page (\<open>rows\<close>; in \<open>overlapping\<close> row 1 is 80 pixels high
  and so reaches over row 2; \<open>scrolled\<close> is \<open>rows\<close> moved down by 40 pixels). The
  numbers of the sample page are reals; every coordinate on it is a small integer, and
  on these double arithmetic is exact.

  \<open>five_rows\<close> is the component once the five elements have mounted, \<open>pressed_rows\<close>
  after a mouse-down on row 0 at \<open>clientY = 10\<close>, \<open>dragged_rows\<close> after a mouse-move to
  \<open>clientY = 100\<close>, which puts the midpoint of the dragged row at 110, inside row 2, and
  \<open>released_rows\<close> after the mouse-up. \<open>rebound_rows\<close> is \<open>pressed_rows\<close> after a
  second mouse-down, on row 1 at \<open>clientY = 50\<close>.
\<close>

definition rows :: "nat \<Rightarrow> real domRect" where
  "rows n = \<lparr>rect_x = 0, rect_y = 40 * real n, rect_width = 100, rect_height = 40\<rparr>"



definition five_items :: "string jsval list" where
  "five_items = [Val ''A'', Val ''B'', Val ''C'', Val ''D'', Val ''E'']"

definition five_rows :: "(nat, real, string) system" where
  "five_rows =
     \<lparr>state = initialState\<lparr>nodes := [0, 1, 2, 3, 4]\<rparr>,
      listeners = initialState\<lparr>nodes := [0, 1, 2, 3, 4]\<rparr>,
      items = five_items, body = [], clones = 0\<rparr>"

definition pressed_state :: "(nat, real) state" where
  "pressed_state =
     \<lparr>nodes = [0, 1, 2, 3, 4], isDragging = Some True, initialY = Some 10, currentY = None,
      draggedElement = Some \<lparr>node = 0, rect = rows 0\<rparr>, draggedElementIndex = Some 0,
      draggedElementNewIndex = None, duplicateNode = Some \<lparr>source = 0, serial = 0\<rparr>\<rparr>"

definition pressed_rows :: "(nat, real, string) system" where
  "pressed_rows =
     \<lparr>state = pressed_state, listeners = pressed_state, items = five_items,
      body = [\<lparr>source = 0, serial = 0\<rparr>], clones = 1\<rparr>"

definition dragged_rows :: "(nat, real, string) system" where
  "dragged_rows =
     \<lparr>state = pressed_state\<lparr>currentY := Some (Num 90), draggedElementNewIndex := Some 2\<rparr>,
      listeners = pressed_state, items = five_items,
      body = [\<lparr>source = 0, serial = 0\<rparr>], clones = 1\<rparr>"

definition released_state :: "(nat, real) state" where
  "released_state =
     pressed_state\<lparr>isDragging := Some False, currentY := Some (Num 90),
                   draggedElementNewIndex := Some 2\<rparr>"

definition released_rows :: "(nat, real, string) system" where
  "released_rows =
     \<lparr>state = released_state, listeners = released_state,
      items = [Val ''B'', Val ''C'', Val ''A'', Val ''D'', Val ''E''], body = [], clones = 1\<rparr>"

definition rebound_rows :: "(nat, real, string) system" where
  "rebound_rows =
     \<lparr>state = pressed_state
         \<lparr>initialY := Some 50, draggedElement := Some \<lparr>node = 1, rect = rows 1\<rparr>,
          draggedElementIndex := Some 1, duplicateNode := Some \<lparr>source = 1, serial = 1\<rparr>\<rparr>,
      listeners = pressed_state, items = five_items,
      body = [\<lparr>source = 0, serial = 0\<rparr>], clones = 2\<rparr>"

section \<open>The sample page is reachable\<close>

lemmas run_defs =
  step_def render_def addNode_def dragStart_def dragEnd_def drag_def
  dragging_effect_def position_effect_def forEach_def place_node_def ctx_of_def
  useSortable_effect_def move_item_def splice_def findIndex_def appendChild_def
  removeChild_def rows_def

lemmas sample_defs =
  five_rows_def five_items_def pressed_rows_def pressed_state_def dragged_rows_def
  released_rows_def released_state_def rebound_rows_def initialState_def mounted_def

lemma five_rows_reached:
  "run [(rows, Mount 0), (rows, Mount 1), (rows, Mount 2), (rows, Mount 3), (rows, Mount 4)]
     (mounted five_items) = Inr (five_rows, [])"
  by (simp add: run_defs sample_defs)

lemma pressed_rows_reached:
  "step rows (PressStart (Mouse 10) 0) five_rows =
     Inr (pressed_rows,
          [Place_proxy \<lparr>source = 0, serial = 0\<rparr> (rows 0), Set_visibility 0 False,
           Set_transition 0 True, Set_transition 1 True, Set_transition 2 True,
           Set_transition 3 True, Set_transition 4 True])"
  by (simp add: run_defs sample_defs)

lemma dragged_rows_reached:
  "step rows (PressMove (Mouse 100)) pressed_rows =
     Inr (dragged_rows,
          [Prevent_default, Move_proxy \<lparr>source = 0, serial = 0\<rparr> (Some (Num 90)),
           Set_transform 1 (Shift_up 40), Set_transform 2 (Shift_up 40),
           Set_transform 3 Neutral, Set_transform 4 Neutral])"
  by (simp add: run_defs sample_defs)

lemma released_rows_reached:
  "step rows PressEnd dragged_rows =
     Inr (released_rows,
          [Remove_proxy \<lparr>source = 0, serial = 0\<rparr>, Set_visibility 0 True,
           Set_transition 0 False, Set_transform 0 Cleared,
           Set_transition 1 False, Set_transform 1 Cleared,
           Set_transition 2 False, Set_transform 2 Cleared,
           Set_transition 3 False, Set_transform 3 Cleared,
           Set_transition 4 False, Set_transform 4 Cleared])"
  by (simp add: run_defs sample_defs)

lemma rebound_rows_reached:
  "step rows (PressStart (Mouse 50) 1) pressed_rows = Inr (rebound_rows, [])"
  by (simp add: run_defs sample_defs)

section \<open>The commit step\<close>

lemma splice_remove_one:
  assumes "i < length xs"
  shows "splice (int i) 1 [] xs = ([xs ! i], take i xs @ drop (Suc i) xs)"
proof -
  have "take (Suc 0) (drop i xs) = [xs ! i]"
    using assms by (simp add: take_Suc_conv_app_nth hd_drop_conv_nth take_Suc)
  with assms show ?thesis
    by (simp add: splice_def Let_def min_def max_def)
qed

lemma splice_insert_one:
  assumes "j \<le> length xs"
  shows "splice (int j) 0 [v] xs = ([], take j xs @ v # drop j xs)"
  using assms by (simp add: splice_def Let_def min_def)

lemma move_item_valid:
  assumes "i < length xs" and "j < length xs"
  shows "move_item (Some (int i)) (Some (int j)) xs =
           take j (take i xs @ drop (Suc i) xs) @ xs ! i # drop j (take i xs @ drop (Suc i) xs)"
proof -
  have "j \<le> length (take i xs @ drop (Suc i) xs)"
    using assms by simp
  then show ?thesis
    using assms by (simp add: move_item_def splice_remove_one splice_insert_one)
qed

lemma mset_remove_nth:
  assumes "i < length xs"
  shows "mset (take i xs @ drop (Suc i) xs) + {#xs ! i#} = mset xs"
proof -
  have "xs = take i xs @ xs ! i # drop (Suc i) xs"
    using assms by (rule id_take_nth_drop)
  then have "mset xs = mset (take i xs @ xs ! i # drop (Suc i) xs)"
    by simp
  then show ?thesis by simp
qed

lemma insert_at_nth:
  assumes "j \<le> length r"
  shows "(take j r @ v # drop j r) ! j = v"
  using assms by (simp add: nth_append)

lemma insert_at_delete:
  assumes "j \<le> length r"
  shows "take j (take j r @ v # drop j r) @ drop (Suc j) (take j r @ v # drop j r) = r"
  using assms by simp

text \<open>
  C1. For every item sequence and every pair of valid indices \<open>i \<noteq> j\<close>, the commit at drag
  end (remove the item at \<open>i\<close>, insert it at \<open>j\<close>) yields a sequence of the same length and
  with the same multiset of items, in which the item that was at \<open>i\<close> is at \<open>j\<close>; deleting
  that item from the result gives the original sequence without its item at \<open>i\<close>, so all
  other items keep their relative order.
\<close>

theorem commit_moves_item:
  assumes "i < length xs" and "j < length xs" and "i \<noteq> j"
  shows "length (commit (Some (int i)) (Some (int j)) xs) = length xs
       \<and> mset (commit (Some (int i)) (Some (int j)) xs) = mset xs
       \<and> commit (Some (int i)) (Some (int j)) xs ! j = xs ! i
       \<and> take j (commit (Some (int i)) (Some (int j)) xs)
           @ drop (Suc j) (commit (Some (int i)) (Some (int j)) xs)
         = take i xs @ drop (Suc i) xs"
proof -
  let ?rest = "take i xs @ drop (Suc i) xs"
  let ?ys = "commit (Some (int i)) (Some (int j)) xs"
  have j: "j \<le> length ?rest"
    using assms(1,2) by simp
  have ys: "?ys = take j ?rest @ xs ! i # drop j ?rest"
    using assms by (simp add: useSortable_effect_def move_item_valid)
  have len: "length ?ys = length xs"
    using assms(1,2) by (simp add: ys)
  have "mset ?ys = mset (take j ?rest @ drop j ?rest) + {#xs ! i#}"
    by (simp add: ys)
  also have "\<dots> = mset ?rest + {#xs ! i#}"
    by (simp only: append_take_drop_id)
  also have "\<dots> = mset xs"
    using assms(1) by (rule mset_remove_nth)
  finally have ms: "mset ?ys = mset xs" .
  have at: "?ys ! j = xs ! i"
    unfolding ys using j by (rule insert_at_nth)
  have others: "take j ?ys @ drop (Suc j) ?ys = ?rest"
    unfolding ys using j by (rule insert_at_delete)
  from len ms at others show ?thesis
    by (intro conjI)
qed

theorem commit_moves_item_witness:
  "commit (Some (int 3)) (Some (int 1)) [Val (10::nat), Val 20, Val 30, Val 40] ! 1 = Val 40
   \<and> take 1 (commit (Some (int 3)) (Some (int 1)) [Val (10::nat), Val 20, Val 30, Val 40])
       @ drop (Suc 1) (commit (Some (int 3)) (Some (int 1)) [Val (10::nat), Val 20, Val 30, Val 40])
     = [Val 10, Val 20, Val 30]"
  using commit_moves_item [of 3 "[Val (10::nat), Val 20, Val 30, Val 40]" 1]
  by simp

text \<open>
  C2. From \<open>[A, B, C, D, E]\<close>, committing a drag of the item at index 0 with live target
  index 2 gives \<open>[B, C, A, D, E]\<close>, and committing a drag of the item at index 4 with
  live target index 1 gives \<open>[A, E, B, C, D]\<close>. The same as whole sessions on the sample
  page: row 0 pressed at 10 and moved to 100 (midpoint 110, inside row 2), then released;
  row 4 pressed at 170 and moved to 50 (midpoint 60, inside row 1), then released.
\<close>

theorem commit_scenarios:
  "commit (Some 0) (Some 2) [Val ''A'', Val ''B'', Val ''C'', Val ''D'', Val ''E'']
     = [Val ''B'', Val ''C'', Val ''A'', Val ''D'', Val ''E'']
   \<and> commit (Some 4) (Some 1) [Val ''A'', Val ''B'', Val ''C'', Val ''D'', Val ''E'']
     = [Val ''A'', Val ''E'', Val ''B'', Val ''C'', Val ''D'']
   \<and> items_after [(rows, PressStart (Mouse 10) 0), (rows, PressMove (Mouse 100)), (rows, PressEnd)]
        five_rows
     = Inr [Val ''B'', Val ''C'', Val ''A'', Val ''D'', Val ''E'']
   \<and> items_after [(rows, PressStart (Mouse 170) 4), (rows, PressMove (Mouse 50)), (rows, PressEnd)]
        five_rows
     = Inr [Val ''A'', Val ''E'', Val ''B'', Val ''C'', Val ''D'']"
  by (simp add: items_after_def run_defs sample_defs)

section \<open>The end of a drag in the reducer\<close>


section \<open>Registration\<close>

lemma nodes_register_all:
  "nodes (foldl (reducer g k) s (map ADD_NODE hs)) = nodes s @ hs"
  by (induction hs arbitrary: s) simp_all

lemma concat_addNode:
  "concat (map addNode hs) = map ADD_NODE hs"
  by (induction hs) (simp_all add: addNode_def)

text \<open>
  C9, as the code has it. Registration appends without looking at the registry: each call
  makes the registry one entry longer, also for a node that is already in it. Registering
  handles in mount order, each once, from the empty registry gives exactly that
  sequence.
\<close>

theorem register_appends:
  "nodes (foldl (reducer g k) s (addNode n)) = nodes s @ [n]
   \<and> length (nodes (foldl (reducer g k) s (addNode n))) = Suc (length (nodes s))
   \<and> nodes (foldl (reducer g k) initialState (concat (map addNode hs))) = hs"
  by (simp add: concat_addNode nodes_register_all) (simp add: addNode_def initialState_def)

text \<open>
  C9 as stated fails: registering node 0 a second time changes the registry from \<open>[0]\<close>
  to \<open>[0, 0]\<close>.
\<close>

theorem register_twice:
  "nodes (foldl (reducer rows 0) initialState (addNode 0)) = [0]
   \<and> nodes (foldl (reducer rows 0) (foldl (reducer rows 0) initialState (addNode 0)) (addNode 0))
       = [0, 0]
   \<and> nodes (foldl (reducer rows 0) (foldl (reducer rows 0) initialState (addNode 0)) (addNode 0))
       \<noteq> nodes (foldl (reducer rows 0) initialState (addNode 0))"
  by (simp add: addNode_def initialState_def)

section \<open>The effect of a pointer move\<close>



text \<open>One call of the callback: at most one write and at most one dispatch are added.\<close>

lemma place_node_pair:
  "place_node g dr off k n i (ops, acts) =
     (ops @ (if Some (int i) \<noteq> k
             then [Set_transform n
                     (if num_gt off (rect_y (g n)) \<and> idx_lt k (int i) then Shift_up (rect_height dr)
                      else if num_lt off (rect_y (g n) + rect_height (g n)) \<and> idx_gt k (int i)
                      then Shift_down (rect_height dr) else Neutral)]
             else []),
      acts @ (if num_gt off (rect_y (g n)) \<and> num_lt off (rect_y (g n) + rect_height (g n))
              then [SET_NEW_INDEX (int i)] else []))"
  by (simp add: place_node_def Let_def)

lemma fold_place_node:
  "fold (\<lambda>(i, n). place_node g dr off k n i) ps (ops, acts) =
     (ops @ map (\<lambda>(i, n). Set_transform n
                  (if num_gt off (rect_y (g n)) \<and> idx_lt k (int i) then Shift_up (rect_height dr)
                   else if num_lt off (rect_y (g n) + rect_height (g n)) \<and> idx_gt k (int i)
                   then Shift_down (rect_height dr) else Neutral))
              (filter (\<lambda>(i, n). Some (int i) \<noteq> k) ps),
      acts @ map (\<lambda>(i, n). SET_NEW_INDEX (int i))
              (filter (\<lambda>(i, n). num_gt off (rect_y (g n))
                                \<and> num_lt off (rect_y (g n) + rect_height (g n))) ps))"
proof (induction ps arbitrary: ops acts)
  case Nil
  show ?case by simp
next
  case (Cons p ps)
  obtain i n where p: "p = (i, n)" by (cases p)
  show ?case
    by (simp add: p Cons.IH place_node_pair)
qed



lemma reduce_new_index_pairs:
  "\<exists>x. foldl (reducer g k) s (map (\<lambda>(i, n). SET_NEW_INDEX (int i)) qs) =
         s\<lparr>draggedElementNewIndex := x\<rparr>"
proof (induction qs arbitrary: s)
  case Nil
  show ?case by (rule exI [of _ "draggedElementNewIndex s"]) simp
next
  case (Cons q qs)
  obtain i n where q: "q = (i, n)" by (cases q)
  from Cons [of "s\<lparr>draggedElementNewIndex := Some (int i)\<rparr>"] show ?case
    by (auto simp: q)
qed


text \<open>
  The effect returns whenever the session fields are both set or both missing, and the
  actions it dispatches change the live target index only.
\<close>

lemma position_effect_returns:
  assumes "duplicateNode s = None \<or> draggedElement s \<noteq> None"
  shows "\<exists>ops acts x. position_effect g s = Inr (ops, acts)
           \<and> foldl (reducer g k) s' acts = s'\<lparr>draggedElementNewIndex := x\<rparr>
           \<and> (duplicateNode s = None \<longrightarrow> acts = [])"
proof (cases "duplicateNode s")
  case None
  then show ?thesis
    by (intro exI [of _ "draggedElementNewIndex s'"] exI [of _ "[]"])
       (simp add: position_effect_def)
next
  case (Some dup)
  with assms obtain d where d: "draggedElement s = Some d" by auto
  from reduce_new_index_pairs obtain x where
    "foldl (reducer g k) s'
       (map (\<lambda>(i, n). SET_NEW_INDEX (int i))
          (filter (\<lambda>(i, n). num_gt (midpoint (currentY s) (rect d)) (rect_y (g n))
                           \<and> num_lt (midpoint (currentY s) (rect d))
                                (rect_y (g n) + rect_height (g n)))
             (enumerate 0 (nodes s)))) = s'\<lparr>draggedElementNewIndex := x\<rparr>"
    by blast
  with Some d show ?thesis
    by (auto simp: position_effect_def forEach_def fold_place_node)
qed

section \<open>The pointer-move step\<close>








section \<open>What holds after every event\<close>

lemma render_result:
  assumes "render g prev nxt sys = Inr (sys', ops)"
    and "duplicateNode nxt = None \<or> draggedElement nxt \<noteq> None"
  shows "\<exists>x. state sys' = nxt\<lparr>draggedElementNewIndex := x\<rparr>
             \<and> (duplicateNode nxt = None \<longrightarrow> x = draggedElementNewIndex nxt)"
    and "listeners sys' =
           (if nodes nxt = nodes prev \<and> isDragging nxt = isDragging prev
            then listeners sys else nxt)"
proof -
  from assms(1) obtain ops2 acts where
    eff: "(if currentY nxt = currentY prev then Inr ([], []) else position_effect g nxt)
            = Inr (ops2, acts)"
    and st: "state sys' = foldl (reducer g (clones sys)) nxt acts"
    and ls: "listeners sys' =
               (if nodes nxt = nodes prev \<and> isDragging nxt = isDragging prev
                then listeners sys else nxt)"
    by (auto simp: render_def Let_def split: sum.splits prod.splits)
  from ls show "listeners sys' =
           (if nodes nxt = nodes prev \<and> isDragging nxt = isDragging prev
            then listeners sys else nxt)" .
  show "\<exists>x. state sys' = nxt\<lparr>draggedElementNewIndex := x\<rparr>
             \<and> (duplicateNode nxt = None \<longrightarrow> x = draggedElementNewIndex nxt)"
  proof (cases "currentY nxt = currentY prev")
    case True
    with eff st have "state sys' = nxt" by simp
    then show ?thesis
      by (intro exI [of _ "draggedElementNewIndex nxt"]) simp
  next
    case False
    with eff have e: "position_effect g nxt = Inr (ops2, acts)" by simp
    from position_effect_returns [OF assms(2), of g "clones sys" nxt] e obtain x where
      x: "foldl (reducer g (clones sys)) nxt acts = nxt\<lparr>draggedElementNewIndex := x\<rparr>"
        "duplicateNode nxt = None \<longrightarrow> acts = []"
      by auto
    show ?thesis
    proof (cases "duplicateNode nxt")
      case None
      with x st have "state sys' = nxt" by simp
      then show ?thesis
        by (intro exI [of _ "draggedElementNewIndex nxt"]) simp
    next
      case (Some dup)
      with x st show ?thesis by auto
    qed
  qed
qed

lemma reduce_dispatched_session:
  assumes "duplicateNode s = None \<or> draggedElement s \<noteq> None"
  shows "duplicateNode (foldl (reducer g k) s (snd (dispatched s' ev))) = None
         \<or> draggedElement (foldl (reducer g k) s (snd (dispatched s' ev))) \<noteq> None"
  using assms
  by (cases ev) (auto simp: addNode_def dragStart_def dragEnd_def drag_def)

lemma step_coherent:
  assumes "coherent sys" and "step g ev sys = Inr (sys', ops)"
  shows "coherent sys'"
proof -
  obtain ops0 acts where d: "dispatched (listeners sys) ev = (ops0, acts)"
    by (cases "dispatched (listeners sys) ev")
  define nxt where "nxt = foldl (reducer g (clones sys)) (state sys) acts"
  from assms(2) d obtain ops1 where
    r: "render g (state sys) nxt (sys\<lparr>clones := clones sys + length (filter makes_clone acts)\<rparr>)
          = Inr (sys', ops1)"
    by (auto simp: step_def nxt_def split: sum.splits)
  from assms(1) have "duplicateNode (state sys) = None \<or> draggedElement (state sys) \<noteq> None"
    by (auto simp: coherent_def)
  from reduce_dispatched_session [OF this, of g "clones sys" "listeners sys" ev] d
  have sess: "duplicateNode nxt = None \<or> draggedElement nxt \<noteq> None"
    by (simp add: nxt_def)
  from render_result [OF r sess] obtain x where
    st: "state sys' = nxt\<lparr>draggedElementNewIndex := x\<rparr>"
    and x: "duplicateNode nxt = None \<longrightarrow> x = draggedElementNewIndex nxt"
    and ls: "listeners sys' =
               (if nodes nxt = nodes (state sys) \<and> isDragging nxt = isDragging (state sys)
                then listeners sys else nxt)"
    by auto
  show ?thesis
  proof (cases ev)
    case (Mount n)
    with d have "nxt = (state sys)\<lparr>nodes := nodes (state sys) @ [n]\<rparr>"
      by (auto simp: nxt_def addNode_def)
    with assms(1) st x ls show ?thesis
      by (cases "isDragging (state sys)") (auto simp: coherent_def split: if_splits)
  next
    case (PressStart e target)
    with d have
      "nxt = state sys
       \<or> nxt = reducer g (clones sys) (state sys) (DRAG_START (clientY e) target)"
      by (auto simp: nxt_def dragStart_def)
    then consider
      (ignored) "nxt = state sys"
      | (started) "nxt = reducer g (clones sys) (state sys) (DRAG_START (clientY e) target)"
      by blast
    then show ?thesis
    proof cases
      case ignored
      with assms(1) st x ls show ?thesis
        by (cases "isDragging (state sys)") (auto simp: coherent_def split: if_splits)
    next
      case started
      show ?thesis
      proof (cases "isDragging (state sys) = Some True")
        case True
        with started assms(1) st ls show ?thesis
          by (simp add: coherent_def)
      next
        case False
        with started assms(1) st ls show ?thesis
          by (simp add: coherent_def)
      qed
    qed
  next
    case (PressMove e)
    with d have "nxt = state sys
                 \<or> nxt = (state sys)\<lparr>currentY := Some (num_sub (clientY e) (initialY (listeners sys)))\<rparr>"
      by (auto simp: nxt_def drag_def split: if_splits)
    with assms(1) st x ls show ?thesis
      by (cases "isDragging (state sys)") (auto simp: coherent_def split: if_splits)
  next
    case PressEnd
    with d have "nxt = (state sys)\<lparr>isDragging := Some False\<rparr>"
      by (auto simp: nxt_def dragEnd_def)
    with assms(1) st x ls show ?thesis
      by (cases "isDragging (state sys)") (auto simp: coherent_def split: if_splits)
  qed
qed

lemma run_coherent:
  assumes "run evs sys = Inr (sys', ops)" and "coherent sys"
  shows "coherent sys'"
  using assms
proof (induction evs arbitrary: sys ops)
  case Nil
  then show ?case by simp
next
  case (Cons p evs)
  obtain g ev where p: "p = (g, ev)" by (cases p)
  from Cons.prems(1) p obtain sys1 ops1 ops2 where
    s1: "step g ev sys = Inr (sys1, ops1)" and s2: "run evs sys1 = Inr (sys', ops2)"
    by (auto split: sum.splits prod.splits)
  from step_coherent [OF Cons.prems(2) s1] have "coherent sys1" .
  with Cons.IH [OF s2] show ?case .
qed

lemma reachable_coherent:
  assumes "run evs (mounted its) = Inr (sys, ops)"
  shows "coherent sys"
  using assms by (rule run_coherent) (simp add: coherent_def mounted_def initialState_def)

section \<open>A session from press to release\<close>







section \<open>A press during a session\<close>

text \<open>
  C7 does not hold of the code. \<open>dragStart\<close> tests only that the target is registered,
  and \<open>DRAG_START\<close> overwrites the session. With a session open on row 0 (pressed at
  10), a mouse-down on row 1 at 50 is not ignored: the state is bound to row 1, with a
  new clone that no effect appends to the body (\<open>isDragging\<close> has not changed), while
  the clone of row 0 stays on the page and the handlers keep the \<open>initialY = 10\<close> of the
  first press. The release then asks the body to remove the clone of row 1 and throws.
\<close>

theorem second_press_not_ignored:
  "isDragging (state pressed_rows) = Some True
   \<and> draggedElementIndex (state pressed_rows) = Some 0
   \<and> step rows (PressStart (Mouse 50) 1) pressed_rows = Inr (rebound_rows, [])
   \<and> draggedElementIndex (state rebound_rows) = Some 1
   \<and> duplicateNode (state rebound_rows) = Some \<lparr>source = 1, serial = 1\<rparr>
   \<and> body rebound_rows = [\<lparr>source = 0, serial = 0\<rparr>]
   \<and> initialY (state rebound_rows) = Some 50
   \<and> initialY (listeners rebound_rows) = Some 10
   \<and> step rows PressEnd rebound_rows = Inl NotFoundError"
  by (simp add: run_defs sample_defs)

section \<open>A press outside the registry\<close>

lemma step_press_unregistered:
  assumes "target \<notin> set (nodes (listeners sys))"
  shows "step g (PressStart e target) sys = Inr (sys, [])"
  using assms by (simp add: step_def dragStart_def render_def list_ex_iff)

text \<open>
  With no session open, a move or a release writes nothing to the page and leaves the
  items and the body alone; of the state only \<open>isDragging\<close> can change (the first
  release sets it to \<open>false\<close>).
\<close>

lemma step_idle:
  assumes "coherent sys" and "isDragging (state sys) \<noteq> Some True" and "move_or_end ev"
  shows "\<exists>sys'. step g ev sys = Inr (sys', []) \<and> items sys' = items sys
           \<and> body sys' = body sys
           \<and> state sys' = (state sys)\<lparr>isDragging := isDragging (state sys')\<rparr>
           \<and> isDragging (state sys') \<noteq> Some True \<and> coherent sys'"
proof -
  have "\<exists>sys'. step g ev sys = Inr (sys', []) \<and> items sys' = items sys
           \<and> body sys' = body sys
           \<and> state sys' = (state sys)\<lparr>isDragging := isDragging (state sys')\<rparr>
           \<and> isDragging (state sys') \<noteq> Some True"
  proof (cases ev)
    case (PressMove e)
    with assms show ?thesis
      by (simp add: step_def drag_def render_def coherent_def)
  next
    case PressEnd
    show ?thesis
    proof (cases "isDragging (state sys)")
      case None
      with assms(1) PressEnd show ?thesis
        by (simp add: step_def dragEnd_def render_def dragging_effect_def
              useSortable_effect_def ctx_of_def coherent_def)
    next
      case (Some b)
      with assms(2) have f: "isDragging (state sys) = Some False" by simp
      then have "(state sys)\<lparr>isDragging := Some False\<rparr> = state sys"
        by (metis state.surjective state.update_convs(2))
      with f PressEnd show ?thesis
        by (simp add: step_def dragEnd_def render_def)
    qed
  qed (use assms in simp_all)
  with step_coherent [OF assms(1)] show ?thesis by blast
qed

lemma run_idle:
  assumes "coherent sys" and "isDragging (state sys) \<noteq> Some True"
    and "list_all (\<lambda>(g, ev). move_or_end ev) evs"
  shows "\<exists>sys'. run evs sys = Inr (sys', []) \<and> items sys' = items sys
           \<and> body sys' = body sys
           \<and> state sys' = (state sys)\<lparr>isDragging := isDragging (state sys')\<rparr>
           \<and> isDragging (state sys') \<noteq> Some True"
  using assms
proof (induction evs arbitrary: sys)
  case Nil
  then show ?case by simp
next
  case (Cons p evs)
  obtain g ev where p: "p = (g, ev)" by (cases p)
  from Cons.prems p have ev: "move_or_end ev" and rest: "list_all (\<lambda>(g, ev). move_or_end ev) evs"
    by simp_all
  from step_idle [OF Cons.prems(1,2) ev, of g] obtain sys1 where
    s1: "step g ev sys = Inr (sys1, [])" "items sys1 = items sys" "body sys1 = body sys"
        "state sys1 = (state sys)\<lparr>isDragging := isDragging (state sys1)\<rparr>"
        "isDragging (state sys1) \<noteq> Some True" "coherent sys1"
    by blast
  from Cons.IH [OF s1(6) s1(5) rest] obtain sys2 where
    s2: "run evs sys1 = Inr (sys2, [])" "items sys2 = items sys1" "body sys2 = body sys1"
        "state sys2 = (state sys1)\<lparr>isDragging := isDragging (state sys2)\<rparr>"
        "isDragging (state sys2) \<noteq> Some True"
    by blast
  have "state sys2 = (state sys)\<lparr>isDragging := isDragging (state sys2)\<rparr>"
    by (subst s2(4), subst s1(4)) simp
  with s1 s2 show ?case
    by (simp add: p)
qed

text \<open>
  C8. In every state the component can reach, a press whose target is not a registered
  handle dispatches nothing: the state, the items and the page are exactly as before, so
  no session is created. When no session is open (before the first drag as well as after
  a completed one), any moves and releases that follow run to the end without an
  exception, write nothing to the page, leave the items and the body as they are and
  open no session; they leave every field of the state as it is except \<open>isDragging\<close>,
  which is not exposed outside the library and which the first release turns from unset
  to \<open>false\<close>.
\<close>

theorem unregistered_press_opens_no_session:
  assumes "run evs0 (mounted its) = Inr (sys, ops0)"
    and "target \<notin> set (nodes (state sys))"
    and "list_all (\<lambda>(g, ev). move_or_end ev) evs"
  shows "step g (PressStart e target) sys = Inr (sys, [])
       \<and> (isDragging (state sys) \<noteq> Some True \<longrightarrow>
            (\<exists>sys'. run evs sys = Inr (sys', [])
               \<and> items sys' = items sys
               \<and> body sys' = body sys
               \<and> isDragging (state sys') \<noteq> Some True
               \<and> state sys' = (state sys)\<lparr>isDragging := isDragging (state sys')\<rparr>))"
proof -
  from assms(1) have c: "coherent sys" by (rule reachable_coherent)
  then have "nodes (listeners sys) = nodes (state sys)"
    by (simp add: coherent_def)
  with assms(2) have "step g (PressStart e target) sys = Inr (sys, [])"
    by (simp add: step_press_unregistered)
  moreover have "\<exists>sys'. run evs sys = Inr (sys', []) \<and> items sys' = items sys
             \<and> body sys' = body sys
             \<and> state sys' = (state sys)\<lparr>isDragging := isDragging (state sys')\<rparr>
             \<and> isDragging (state sys') \<noteq> Some True"
    if "isDragging (state sys) \<noteq> Some True"
    using c that assms(3) by (rule run_idle)
  ultimately show ?thesis by blast
qed

text \<open>The sample page after a completed drag, and the events that lead there.\<close>

lemma run_snoc:
  assumes "run evs sys = Inr (sys1, ops1)" and "step g ev sys1 = Inr (sys2, ops2)"
  shows "run (evs @ [(g, ev)]) sys = Inr (sys2, ops1 @ ops2)"
  using assms
proof (induction evs arbitrary: sys ops1)
  case Nil
  then show ?case by simp
next
  case (Cons p evs)
  obtain g' ev' where p: "p = (g', ev')" by (cases p)
  from Cons.prems(1) p obtain sys0 ops0 ops0' where
    s0: "step g' ev' sys = Inr (sys0, ops0)" "run evs sys0 = Inr (sys1, ops0')"
        "ops1 = ops0 @ ops0'"
    by (auto split: sum.splits prod.splits)
  from Cons.IH [OF s0(2) Cons.prems(2)] s0 p show ?case by simp
qed

lemma released_rows_run:
  "run [(rows, Mount 0), (rows, Mount 1), (rows, Mount 2), (rows, Mount 3), (rows, Mount 4),
        (rows, PressStart (Mouse 10) 0), (rows, PressMove (Mouse 100)), (rows, PressEnd)]
     (mounted five_items) =
   Inr (released_rows,
        [Place_proxy \<lparr>source = 0, serial = 0\<rparr> (rows 0), Set_visibility 0 False,
         Set_transition 0 True, Set_transition 1 True, Set_transition 2 True,
         Set_transition 3 True, Set_transition 4 True,
         Prevent_default, Move_proxy \<lparr>source = 0, serial = 0\<rparr> (Some (Num 90)),
         Set_transform 1 (Shift_up 40), Set_transform 2 (Shift_up 40),
         Set_transform 3 Neutral, Set_transform 4 Neutral,
         Remove_proxy \<lparr>source = 0, serial = 0\<rparr>, Set_visibility 0 True,
         Set_transition 0 False, Set_transform 0 Cleared,
         Set_transition 1 False, Set_transform 1 Cleared,
         Set_transition 2 False, Set_transform 2 Cleared,
         Set_transition 3 False, Set_transform 3 Cleared,
         Set_transition 4 False, Set_transform 4 Cleared])"
  using run_snoc [OF run_snoc [OF run_snoc [OF five_rows_reached pressed_rows_reached]
          dragged_rows_reached] released_rows_reached]
  by simp

theorem unregistered_press_opens_no_session_witness:
  "step rows (PressStart (Mouse 3) 7) released_rows = Inr (released_rows, [])
   \<and> (\<exists>sys'. run [(rows, PressMove (Mouse 5)), (rows, PressEnd), (rows, PressMove (Mouse 9))]
               released_rows = Inr (sys', [])
         \<and> items sys' = items released_rows
         \<and> body sys' = body released_rows
         \<and> isDragging (state sys') \<noteq> Some True
         \<and> state sys' = (state released_rows)\<lparr>isDragging := isDragging (state sys')\<rparr>)"
proof -
  have "7 \<notin> set (nodes (state released_rows))"
    and "list_all (\<lambda>(g, ev). move_or_end ev)
           [(rows, PressMove (Mouse 5)), (rows, PressEnd), (rows, PressMove (Mouse 9))]"
    and i: "isDragging (state released_rows) \<noteq> Some True"
    by (simp_all add: sample_defs)
  from unregistered_press_opens_no_session [OF released_rows_run this(1,2), of rows "Mouse 3"] i
  show ?thesis by simp
qed

section \<open>A session without displacement\<close>

text \<open>
  C6 does not hold of the code. \<open>DRAG_START\<close> does not reset \<open>draggedElementNewIndex\<close>,
  and \<open>position_effect\<close> runs only when \<open>currentY\<close> changes. First run: mouse-down on
  row 2 and mouse-up with no move in between; the live target index is still unset, it
  differs from the origin index 2, and the commit moves item C to the front. Second run:
  two sessions in a row, each a press, a move by zero pixels and a release; in the second
  session \<open>currentY\<close> is 0 as before, the target index 0 of the first session is kept, and
  the release of row 1 moves item B to the front.
\<close>

theorem still_press_reorders:
  "state_after [(rows, PressStart (Mouse 100) 2), (rows, PressEnd)] five_rows =
     Inr \<lparr>nodes = [0, 1, 2, 3, 4], isDragging = Some False, initialY = Some 100, currentY = None,
          draggedElement = Some \<lparr>node = 2, rect = rows 2\<rparr>, draggedElementIndex = Some 2,
          draggedElementNewIndex = None, duplicateNode = Some \<lparr>source = 2, serial = 0\<rparr>\<rparr>
   \<and> items_after [(rows, PressStart (Mouse 100) 2), (rows, PressEnd)] five_rows =
       Inr [Val ''C'', Val ''A'', Val ''B'', Val ''D'', Val ''E'']
   \<and> state_after [(rows, PressStart (Mouse 10) 0), (rows, PressMove (Mouse 10)), (rows, PressEnd),
                   (rows, PressStart (Mouse 50) 1), (rows, PressMove (Mouse 50)), (rows, PressEnd)]
        five_rows =
       Inr \<lparr>nodes = [0, 1, 2, 3, 4], isDragging = Some False, initialY = Some 50,
            currentY = Some (Num 0), draggedElement = Some \<lparr>node = 1, rect = rows 1\<rparr>,
            draggedElementIndex = Some 1, draggedElementNewIndex = Some 0,
            duplicateNode = Some \<lparr>source = 1, serial = 1\<rparr>\<rparr>
   \<and> items_after [(rows, PressStart (Mouse 10) 0), (rows, PressMove (Mouse 10)), (rows, PressEnd),
                   (rows, PressStart (Mouse 50) 1), (rows, PressMove (Mouse 50)), (rows, PressEnd)]
        five_rows =
       Inr [Val ''B'', Val ''A'', Val ''C'', Val ''D'', Val ''E'']"
  by (simp add: state_after_def items_after_def run_defs sample_defs)

end
